theory Spec2Isabelle
  imports Complex_Main "HOL-Library.Word" "HOL-Library.Log_Nat"
begin

unbundle bit_operations_syntax

section \<open>Byte strings and the \<open>struct\<close> module\<close>

text \<open>
  Python \<open>bytes\<close> are lists of 8-bit words. Python integers are unbounded and are
  modelled as \<open>int\<close>. Every exception the program can meet is a value of \<open>error\<close>;
  a function that may raise returns \<open>error + 'a\<close> with the exception on the left.
  Console output (\<open>print\<close>) is not modelled.
\<close>

type_synonym byte = "8 word"

datatype error = StructError | OverflowError | ValueError | OSError | TypeError | NaiveLocalZone

text \<open>\<open>data[i:j]\<close> for literal bounds \<open>0 \<le> i \<le> j\<close>: Python clips a slice to the data.\<close>

definition bytes_slice :: "nat \<Rightarrow> nat \<Rightarrow> 'a list \<Rightarrow> 'a list" where
  "bytes_slice i j xs = take (j - i) (drop i xs)"

text \<open>The value of a byte string read as a big-endian unsigned integer.\<close>

definition be_int :: "byte list \<Rightarrow> int" where
  "be_int bs = foldl (\<lambda>acc b. acc * 256 + uint b) 0 bs"

text \<open>The \<open>n\<close> low bytes of \<open>v\<close>, most significant first.\<close>

fun be_bytes :: "nat \<Rightarrow> int \<Rightarrow> byte list" where
  "be_bytes 0 v = []"
| "be_bytes (Suc n) v = be_bytes n (v div 256) @ [word_of_int (v mod 256)]"

text \<open>
  \<open>struct.unpack('!Q', b)[0]\<close>: raises \<open>struct.error\<close> unless \<open>b\<close> has exactly 8 bytes.
\<close>

definition struct_unpack_Q :: "byte list \<Rightarrow> error + int" where
  "struct_unpack_Q b = (if length b = 8 then Inr (be_int b) else Inl StructError)"

text \<open>
  \<open>struct.pack\<close> of one unsigned field of \<open>n\<close> bytes (\<open>'!B'\<close>, \<open>'!I'\<close>, \<open>'!Q'\<close> for
  \<open>n = 1, 4, 8\<close>): raises \<open>struct.error\<close> when the value does not fit.
\<close>

definition struct_pack_unsigned :: "nat \<Rightarrow> int \<Rightarrow> error + byte list" where
  "struct_pack_unsigned n v =
     (if 0 \<le> v \<and> v < 256 ^ n then Inr (be_bytes n v) else Inl StructError)"

text \<open>\<open>struct.pack('!b', v)\<close>: one signed byte in two's complement.\<close>

definition struct_pack_b :: "int \<Rightarrow> error + byte list" where
  "struct_pack_b v =
     (if - 128 \<le> v \<and> v < 128 then Inr [word_of_int v] else Inl StructError)"

section \<open>Request decoder\<close>

text \<open>
  \<open>parse_ntp_request\<close>: \<open>None\<close> for fewer than 48 bytes; otherwise the unpacked field
  at offsets 24..31, or \<open>None\<close> from the \<open>except struct.error\<close> handler.
\<close>

definition parse_ntp_request :: "byte list \<Rightarrow> int option" where
  "parse_ntp_request data =
     (if length data < 48 then None
      else (case struct_unpack_Q (bytes_slice 24 32 data) of
              Inr origin_timestamp \<Rightarrow> Some origin_timestamp
            | Inl e \<Rightarrow> None))"

section \<open>Python floats\<close>

text \<open>
  A Python \<open>float\<close> is an IEEE 754 binary64 number. Finite floats are modelled by the
  rationals they denote, and every float operation is the exact operation followed by
  \<open>rd\<close>, rounding to the nearest number with a 53-bit significand, ties to the even
  significand. The exponent range is not modelled: every magnitude met here lies far
  inside it.
\<close>

definition round_half_even :: "rat \<Rightarrow> int" where
  "round_half_even y =
     (let f = \<lfloor>y\<rfloor>; d = y - of_int f
      in if d < 1 / 2 then f else if 1 / 2 < d then f + 1 else if even f then f else f + 1)"

text \<open>The binary exponent of a non-zero rational: \<open>2 powi ilog2 x \<le> \<bar>x\<bar> < 2 powi (ilog2 x + 1)\<close>.\<close>

definition ilog2 :: "rat \<Rightarrow> int" where
  "ilog2 x =
     (let (p, q) = quotient_of \<bar>x\<bar>; n = bitlen p - bitlen q
      in if 2 powi n \<le> \<bar>x\<bar> then n else n - 1)"

definition rd :: "rat \<Rightarrow> rat" where
  "rd x =
     (if x = 0 then 0
      else let k = 52 - ilog2 x
           in of_int (round_half_even (x * 2 powi k)) * 2 powi (- k))"

text \<open>The rationals that are floats: a significand below \<open>2 ^ 53\<close> times a power of two.\<close>

definition is_double :: "rat \<Rightarrow> bool" where
  "is_double x \<longleftrightarrow> (\<exists>m j. \<bar>m\<bar> < 2 ^ 53 \<and> x = of_int m * 2 powi j)"

text \<open>
  \<open>a / b\<close> on two Python integers (true division, correctly rounded), and \<open>*\<close> and
  \<open>-\<close> on floats; an integer operand of a float operation is converted first, which is
  exact for the integers used here.
\<close>

definition int_truediv :: "int \<Rightarrow> int \<Rightarrow> rat" where
  "int_truediv a b = rd (of_int a / of_int b)"

definition float_mul :: "rat \<Rightarrow> rat \<Rightarrow> rat" where
  "float_mul x y = rd (x * y)"

definition float_sub :: "rat \<Rightarrow> rat \<Rightarrow> rat" where
  "float_sub x y = rd (x - y)"

text \<open>\<open>int(x)\<close> on a float truncates towards zero.\<close>

definition py_int :: "rat \<Rightarrow> int" where
  "py_int x = (if 0 \<le> x then \<lfloor>x\<rfloor> else \<lceil>x\<rceil>)"

section \<open>The \<open>datetime\<close> module\<close>

text \<open>
  A \<open>datetime\<close> holds civil fields (year .. microsecond) and an optional \<open>tzinfo\<close>.
  All arithmetic of the library goes through the position of the civil fields on the
  proleptic Gregorian time line, so the fields are kept as that position: \<open>wall\<close> is
  the number of microseconds since 0001-01-01T00:00:00. \<open>tzinfo\<close> is \<open>None\<close> for a
  naive value and \<open>Some off\<close> for a fixed-offset \<open>datetime.timezone\<close> whose
  \<open>utcoffset\<close> is \<open>off\<close> microseconds; \<open>timezone.utc\<close> is \<open>Some 0\<close>.
\<close>

record datetime =
  wall :: int
  tzinfo :: "int option"

text \<open>A \<open>timedelta\<close> is stored normalised: \<open>0 \<le> seconds < 86400\<close>, \<open>0 \<le> microseconds < 10^6\<close>.\<close>

record timedelta =
  td_days :: int
  td_seconds :: int
  td_microseconds :: int

definition timedelta_of_us :: "int \<Rightarrow> timedelta" where
  "timedelta_of_us us =
     \<lparr>td_days = us div 86400000000,
      td_seconds = us div 1000000 mod 86400,
      td_microseconds = us mod 1000000\<rparr>"

definition total_us :: "timedelta \<Rightarrow> int" where
  "total_us td = (td_days td * 86400 + td_seconds td) * 1000000 + td_microseconds td"

text \<open>\<open>timedelta.total_seconds()\<close>: the total microseconds divided by \<open>10**6\<close>, as a float.\<close>

definition total_seconds :: "timedelta \<Rightarrow> rat" where
  "total_seconds td = int_truediv (total_us td) 1000000"

text \<open>The calendar of the library, used to write down civil dates.\<close>

definition is_leap :: "int \<Rightarrow> bool" where
  "is_leap year \<longleftrightarrow> year mod 4 = 0 \<and> (year mod 100 \<noteq> 0 \<or> year mod 400 = 0)"

definition days_before_year :: "int \<Rightarrow> int" where
  "days_before_year year =
     (let y = year - 1 in y * 365 + y div 4 - y div 100 + y div 400)"

definition days_before_month :: "int \<Rightarrow> nat \<Rightarrow> int" where
  "days_before_month year month =
     [0, 0, 31, 59, 90, 120, 151, 181, 212, 243, 273, 304, 334] ! month +
     (if 2 < month \<and> is_leap year then 1 else 0)"

definition ymd2ord :: "int \<Rightarrow> nat \<Rightarrow> int \<Rightarrow> int" where
  "ymd2ord year month day = days_before_year year + days_before_month year month + day"

text \<open>
  \<open>datetime(year, month, day, hour, minute, second, microsecond, tzinfo)\<close> for valid
  civil fields (\<open>1 \<le> month \<le> 12\<close> and so on).
\<close>

definition civil ::
  "int \<Rightarrow> nat \<Rightarrow> int \<Rightarrow> int \<Rightarrow> int \<Rightarrow> int \<Rightarrow> int \<Rightarrow> int option \<Rightarrow> datetime" where
  "civil year month day hour minute second microsecond tz =
     \<lparr>wall = (((ymd2ord year month day - 1) * 24 + hour) * 60 + minute) * 60000000
               + second * 1000000 + microsecond,
      tzinfo = tz\<rparr>"

text \<open>Years 1 to 9999: \<open>datetime.min\<close> is position 0, \<open>datetime.max\<close> the last microsecond of 9999.\<close>

definition in_range :: "int \<Rightarrow> bool" where
  "in_range w \<longleftrightarrow> 0 \<le> w \<and> w < 315537897600000000"

definition utc :: "int option" where
  "utc = Some 0"

definition replace_tzinfo :: "datetime \<Rightarrow> int option \<Rightarrow> datetime" where
  "replace_tzinfo dt tz = dt\<lparr>tzinfo := tz\<rparr>"

text \<open>
  \<open>dt.astimezone(timezone.utc)\<close> on an aware value: subtract the offset, raising
  \<open>OverflowError\<close> when the result leaves years 1..9999. On a naive value the library
  reads the system's local zone, which the model does not have; the program tags naive
  values UTC before it converts, so that case answers \<open>Inl NaiveLocalZone\<close>, a marker that
  is no Python exception.
\<close>

definition astimezone_utc :: "datetime \<Rightarrow> error + datetime" where
  "astimezone_utc dt =
     (case tzinfo dt of
        None \<Rightarrow> Inl NaiveLocalZone
      | Some off \<Rightarrow>
          (let w = wall dt - off
           in if in_range w then Inr \<lparr>wall = w, tzinfo = utc\<rparr> else Inl OverflowError))"

text \<open>The instant an aware value denotes, in microseconds of UTC since 0001-01-01.\<close>

definition utc_us :: "datetime \<Rightarrow> int" where
  "utc_us dt = wall dt - (case tzinfo dt of None \<Rightarrow> 0 | Some off \<Rightarrow> off)"

text \<open>\<open>a - b\<close> on two aware values.\<close>

definition datetime_sub :: "datetime \<Rightarrow> datetime \<Rightarrow> timedelta" where
  "datetime_sub a b = timedelta_of_us (utc_us a - utc_us b)"

text \<open>\<open>dt + td\<close>: the zone is kept; \<open>OverflowError\<close> outside years 1..9999.\<close>

definition datetime_add :: "datetime \<Rightarrow> timedelta \<Rightarrow> error + datetime" where
  "datetime_add dt td =
     (let w = wall dt + total_us td
      in if in_range w then Inr (dt\<lparr>wall := w\<rparr>) else Inl OverflowError)"

section \<open>Time codec\<close>

definition NTP_EPOCH :: datetime where
  "NTP_EPOCH = civil 1900 1 1 0 0 0 0 utc"

definition datetime_to_ntp_timestamp :: "datetime \<Rightarrow> error + int" where
  "datetime_to_ntp_timestamp dt0 =
     (let dt = (if tzinfo dt0 = None then replace_tzinfo dt0 utc else dt0)
      in case astimezone_utc dt of
           Inl e \<Rightarrow> Inl e
         | Inr dt_utc \<Rightarrow>
             (let delta = datetime_sub dt_utc NTP_EPOCH;
                  seconds = py_int (total_seconds delta);
                  microseconds = td_microseconds delta;
                  fractional = py_int (float_mul (int_truediv microseconds 1000000) (2 ^ 32))
              in Inr (push_bit 32 seconds OR fractional)))"

text \<open>\<open>timedelta(seconds=s, microseconds=us)\<close> with integer arguments.\<close>

definition timedelta_int :: "int \<Rightarrow> int \<Rightarrow> timedelta" where
  "timedelta_int s us = timedelta_of_us (s * 1000000 + us)"

definition ntp_timestamp_to_datetime :: "int \<Rightarrow> error + datetime" where
  "ntp_timestamp_to_datetime ntp_timestamp =
     (let seconds = drop_bit 32 ntp_timestamp AND 0xFFFFFFFF;
          fractional = ntp_timestamp AND 0xFFFFFFFF;
          microseconds = py_int (float_mul (int_truediv fractional (2 ^ 32)) 1000000)
      in case datetime_add NTP_EPOCH (timedelta_int seconds microseconds) of
           Inl e \<Rightarrow> Inl e
         | Inr dt \<Rightarrow> Inr (replace_tzinfo dt utc))"

text \<open>
  The instant a value denotes, in microseconds since the NTP epoch. A naive value
  counts as UTC, as \<open>utc_us\<close> reads it.
\<close>

definition ntp_us :: "datetime \<Rightarrow> int" where
  "ntp_us dt = utc_us dt - utc_us NTP_EPOCH"

text \<open>
  The fraction field in the words of the specification:
  \<open>round((microseconds / 1,000,000) * 2^32)\<close>, masked to 32 bits, in exact arithmetic.
\<close>

definition spec_fraction :: "int \<Rightarrow> int" where
  "spec_fraction microseconds =
     round (of_int microseconds / 1000000 * 2 ^ 32 :: rat) AND 0xFFFFFFFF"

section \<open>Response encoder\<close>

text \<open>\<open>packet += piece\<close>, where building either side may already have raised.\<close>

definition pack_append :: "error + byte list \<Rightarrow> error + byte list \<Rightarrow> error + byte list" where
  "pack_append packet piece =
     (case packet of
        Inl e \<Rightarrow> Inl e
      | Inr p \<Rightarrow> (case piece of Inl e \<Rightarrow> Inl e | Inr m \<Rightarrow> Inr (p @ m)))"

text \<open>\<open>struct.pack('!BBB', a, b, c)\<close>.\<close>

definition struct_pack_BBB :: "int \<Rightarrow> int \<Rightarrow> int \<Rightarrow> error + byte list" where
  "struct_pack_BBB a b c =
     pack_append (pack_append (struct_pack_unsigned 1 a) (struct_pack_unsigned 1 b))
       (struct_pack_unsigned 1 c)"

text \<open>
  \<open>build_ntp_response\<close>. The literal \<open>0.001\<close> is the float nearest to \<open>1/1000\<close>;
  \<open>b'LOCL'\<close> is the four ASCII codes.
\<close>

definition build_ntp_response :: "int \<Rightarrow> datetime \<Rightarrow> datetime \<Rightarrow> error + byte list" where
  "build_ntp_response origin_time receive_time transmit_time =
     (case datetime_to_ntp_timestamp receive_time of
        Inl e \<Rightarrow> Inl e
      | Inr receive_ntp \<Rightarrow>
     (case datetime_to_ntp_timestamp transmit_time of
        Inl e \<Rightarrow> Inl e
      | Inr transmit_ntp \<Rightarrow>
         (let flags = push_bit 6 0 OR push_bit 3 4 OR 4;
              stratum = 2;
              poll = 1;
              precision = - 20;
              root_delay = py_int (float_mul (rd (1 / 1000)) (of_int (push_bit 16 1)));
              root_dispersion = py_int (float_mul (rd (1 / 1000)) (of_int (push_bit 16 1)));
              ref_id = [0x4C, 0x4F, 0x43, 0x4C];
              ref_timestamp = transmit_ntp;
              packet = struct_pack_BBB flags stratum poll;
              packet = pack_append packet (struct_pack_b precision);
              packet = pack_append packet (struct_pack_unsigned 4 root_delay);
              packet = pack_append packet (struct_pack_unsigned 4 root_dispersion);
              packet = pack_append packet (Inr ref_id);
              packet = pack_append packet (struct_pack_unsigned 8 ref_timestamp);
              packet = pack_append packet (struct_pack_unsigned 8 origin_time);
              packet = pack_append packet (struct_pack_unsigned 8 receive_ntp);
              packet = pack_append packet (struct_pack_unsigned 8 transmit_ntp)
          in packet)))"

section \<open>Custom time and startup\<close>










section \<open>Exchange loop\<close>

text \<open>
  The values \<open>main\<close> fixes before it enters the loop. \<open>server_start_time\<close> is the float
  returned by \<open>time.time()\<close>; \<open>use_custom_time\<close> is the truth value of
  \<open>custom_time or os.environ.get('NTP_CUSTOM_TIME')\<close>.
\<close>

record server_state =
  base_time :: "datetime option"
  use_custom_time :: bool
  server_start_time :: rat


text \<open>
  \<open>timedelta(seconds=x)\<close> for a float \<open>x\<close>: the whole seconds are kept exactly, the
  fractional part is scaled by \<open>1e6\<close> in float arithmetic and rounded to an integer, ties
  to even. More than 999999999 days raise \<open>OverflowError\<close>.
\<close>

definition timedelta_seconds :: "rat \<Rightarrow> error + timedelta" where
  "timedelta_seconds x =
     (let whole = py_int x;
          secondsfrac = x - of_int whole;
          usdouble = float_mul secondsfrac 1000000;
          td = timedelta_of_us (whole * 1000000 + round_half_even usdouble)
      in if \<bar>td_days td\<bar> > 999999999 then Inl OverflowError else Inr td)"

text \<open>
  Lines 255 to 262 of \<open>main\<close>: the transmit time. \<open>receive_time\<close> is the value read from
  \<open>datetime.now(timezone.utc)\<close> on line 253, \<open>clock\<close> the value \<open>time.time()\<close> returns
  on line 258. Adding a \<open>timedelta\<close> to \<open>None\<close> raises \<open>TypeError\<close>.
\<close>

definition transmit_time_of :: "server_state \<Rightarrow> datetime \<Rightarrow> rat \<Rightarrow> error + datetime" where
  "transmit_time_of st receive_time clock =
     (if use_custom_time st then
        (let elapsed_seconds = float_sub clock (server_start_time st)
         in case timedelta_seconds elapsed_seconds of
              Inl e \<Rightarrow> Inl e
            | Inr td \<Rightarrow>
                (case base_time st of
                   None \<Rightarrow> Inl TypeError
                 | Some base \<Rightarrow> datetime_add base td))
      else Inr receive_time)"

text \<open>
  One turn of the loop for the datagram \<open>data\<close>: \<open>Inr None\<close> when the request is ignored,
  \<open>Inr (Some response)\<close> when a response is sent, \<open>Inl e\<close> when an exception ends the loop.
\<close>

definition serve_datagram ::
  "server_state \<Rightarrow> byte list \<Rightarrow> datetime \<Rightarrow> rat \<Rightarrow> error + byte list option" where
  "serve_datagram st data now clock =
     (case parse_ntp_request data of
        None \<Rightarrow> Inr None
      | Some origin_timestamp \<Rightarrow>
          (let receive_time = now
           in case transmit_time_of st receive_time clock of
                Inl e \<Rightarrow> Inl e
              | Inr transmit_time \<Rightarrow>
                  (case build_ntp_response origin_timestamp receive_time transmit_time of
                     Inl e \<Rightarrow> Inl e
                   | Inr response \<Rightarrow> Inr (Some response))))"

text \<open>
  The transmit instant in the words of the specification, in microseconds on the time
  line of \<open>wall\<close>: the base plus the real time elapsed between server start and the
  receive instant, both as Unix times.
\<close>

definition unix_us :: "datetime \<Rightarrow> int" where
  "unix_us dt = utc_us dt - utc_us (civil 1970 1 1 0 0 0 0 utc)"

definition spec_transmit_us :: "datetime \<Rightarrow> rat \<Rightarrow> datetime \<Rightarrow> rat" where
  "spec_transmit_us base start receive_instant =
     of_int (wall base) + (of_int (unix_us receive_instant) - start * 1000000)"



section \<open>Properties of the byte layer\<close>

lemma length_bytes_slice: "length (bytes_slice i j xs) = min (j - i) (length xs - i)"
  by (simp add: bytes_slice_def)

lemma length_be_bytes: "length (be_bytes n v) = n"
  by (induction n arbitrary: v) simp_all

lemma be_int_snoc: "be_int (bs @ [b]) = be_int bs * 256 + uint b"
  by (simp add: be_int_def)

lemma be_int_Nil: "be_int [] = 0"
  by (simp add: be_int_def)

lemma be_int_nonneg: "0 \<le> be_int bs"
  by (induction bs rule: rev_induct) (simp_all add: be_int_Nil be_int_snoc)

lemma be_int_less: "be_int bs < 256 ^ length bs"
proof (induction bs rule: rev_induct)
  case Nil
  show ?case by (simp add: be_int_Nil)
next
  case (snoc b bs)
  have "uint b < 256" using uint_bounded [of b] by simp
  with snoc show ?case by (simp add: be_int_snoc)
qed

lemma be_bytes_be_int: "be_bytes (length bs) (be_int bs) = bs"
proof (induction bs rule: rev_induct)
  case Nil
  show ?case by simp
next
  case (snoc b bs)
  have b: "0 \<le> uint b" "uint b < 256" using uint_bounded [of b] by simp_all
  have d: "(be_int bs * 256 + uint b) div 256 = be_int bs"
    using b by simp
  have m: "(be_int bs * 256 + uint b) mod 256 = uint b"
    using b by simp
  have "be_bytes (length (bs @ [b])) (be_int (bs @ [b])) =
        be_bytes (length bs) ((be_int bs * 256 + uint b) div 256) @
        [word_of_int ((be_int bs * 256 + uint b) mod 256)]"
    by (simp only: length_append_singleton be_bytes.simps be_int_snoc)
  also have "\<dots> = bs @ [b]"
    by (simp only: d m snoc word_of_int_uint)
  finally show ?case .
qed

lemma slice_request: "48 \<le> length data \<Longrightarrow> length (bytes_slice 24 32 data) = 8"
  by (simp add: length_bytes_slice)

lemma parse_long: "48 \<le> length data \<Longrightarrow>
    parse_ntp_request data = Some (be_int (bytes_slice 24 32 data))"
  by (simp add: parse_ntp_request_def struct_unpack_Q_def slice_request)

lemma parse_short: "length data < 48 \<Longrightarrow> parse_ntp_request data = None"
  by (simp add: parse_ntp_request_def)

text \<open>
  C4 (rejection boundary). A buffer of 47 bytes or fewer is rejected with \<open>None\<close>; a
  buffer of exactly 48 bytes is accepted whatever it holds, and the result is the
  big-endian value of its bytes 24..31, a number below \<open>2 ^ 64\<close>.
\<close>

theorem rejection_boundary:
  "(length data \<le> 47 \<longrightarrow> parse_ntp_request data = None) \<and>
   (length data = 48 \<longrightarrow>
      parse_ntp_request data = Some (be_int (bytes_slice 24 32 data)) \<and>
      0 \<le> be_int (bytes_slice 24 32 data) \<and> be_int (bytes_slice 24 32 data) < 2 ^ 64)"
proof (intro conjI impI)
  assume "length data \<le> 47"
  then show "parse_ntp_request data = None" by (simp add: parse_short)
next
  assume "length data = 48"
  then show "parse_ntp_request data = Some (be_int (bytes_slice 24 32 data))"
    by (simp add: parse_long)
next
  show "0 \<le> be_int (bytes_slice 24 32 data)" by (rule be_int_nonneg)
next
  assume "length data = 48"
  then have "length (bytes_slice 24 32 data) = 8" by (simp add: slice_request)
  with be_int_less [of "bytes_slice 24 32 data"]
  show "be_int (bytes_slice 24 32 data) < 2 ^ 64" by simp
qed

theorem rejection_boundary_witness:
  "parse_ntp_request (replicate 47 (255 :: byte)) = None \<and>
   parse_ntp_request (replicate 24 (255 :: byte) @ [0, 0, 0, 0, 0, 0, 1, 2] @ replicate 16 0)
     = Some 258"
proof -
  let ?d = "replicate 24 (255 :: byte) @ [0, 0, 0, 0, 0, 0, 1, 2] @ replicate 16 0"
  have v: "be_int (bytes_slice 24 32 ?d) = 258"
    by code_simp
  have "length (replicate 47 (255 :: byte)) \<le> 47" by simp
  with rejection_boundary [of "replicate 47 (255 :: byte)"]
  have short: "parse_ntp_request (replicate 47 (255 :: byte)) = None" by blast
  have "length ?d = 48" by simp
  with rejection_boundary [of ?d]
  have "parse_ntp_request ?d = Some (be_int (bytes_slice 24 32 ?d))" by blast
  with v have "parse_ntp_request ?d = Some 258" by (simp only:)
  with short show ?thesis by (simp only: simp_thms)
qed

text \<open>
  C9 (decoder totality). The decoder is a total function into \<open>int option\<close>. For 48
  bytes or more the slice \<open>data[24:32]\<close> has exactly 8 bytes and \<open>struct.unpack\<close>
  returns a value, so the \<open>struct.error\<close> handler is never entered; the result is
  \<open>None\<close> exactly when the input is shorter than 48 bytes.
\<close>

theorem decoder_total:
  "(48 \<le> length data \<longrightarrow>
      length (bytes_slice 24 32 data) = 8 \<and>
      struct_unpack_Q (bytes_slice 24 32 data) = Inr (be_int (bytes_slice 24 32 data))) \<and>
   (parse_ntp_request data = None \<longleftrightarrow> length data < 48)"
proof (intro conjI impI)
  assume "48 \<le> length data"
  then show "length (bytes_slice 24 32 data) = 8" by (rule slice_request)
next
  assume "48 \<le> length data"
  then show "struct_unpack_Q (bytes_slice 24 32 data) = Inr (be_int (bytes_slice 24 32 data))"
    by (simp add: struct_unpack_Q_def slice_request)
next
  show "parse_ntp_request data = None \<longleftrightarrow> length data < 48"
  proof (cases "length data < 48")
    case True
    then show ?thesis by (simp add: parse_short)
  next
    case False
    then show ?thesis by (simp add: parse_long)
  qed
qed

theorem decoder_total_witness:
  "length (bytes_slice 24 32 (replicate 60 (7 :: byte))) = 8 \<and>
   struct_unpack_Q (bytes_slice 24 32 (replicate 60 (7 :: byte))) = Inr 506381209866536711 \<and>
   parse_ntp_request (replicate 60 (7 :: byte)) \<noteq> None"
proof -
  let ?d = "replicate 60 (7 :: byte)"
  have v: "be_int (bytes_slice 24 32 ?d) = 506381209866536711"
    by code_simp
  have l: "48 \<le> length ?d" "\<not> length ?d < 48" by simp_all
  from decoder_total [of ?d] l
  have "length (bytes_slice 24 32 ?d) = 8"
    and "struct_unpack_Q (bytes_slice 24 32 ?d) = Inr (be_int (bytes_slice 24 32 ?d))"
    and "parse_ntp_request ?d \<noteq> None"
    by blast+
  with v show ?thesis by (simp only: simp_thms)
qed

section \<open>Properties of float rounding\<close>

lemma round_half_even_error: "\<bar>of_int (round_half_even y) - y\<bar> \<le> 1 / 2"
  unfolding round_half_even_def Let_def
  by (auto simp: abs_if) linarith+

lemma round_half_even_of_int: "round_half_even (of_int n) = n"
  by (simp add: round_half_even_def)

lemma bitlen_powi:
  assumes "0 < p"
  shows "(2::rat) powi (bitlen p - 1) \<le> of_int p" "of_int p < (2::rat) powi bitlen p"
proof -
  from assms have b1: "1 \<le> bitlen p" by (simp add: bitlen_alt_def)
  from bitlen_bounds [OF assms]
  have lo: "2 ^ nat (bitlen p - 1) \<le> p" and hi: "p < 2 ^ nat (bitlen p)" by simp_all
  have "(2::rat) powi (bitlen p - 1) = of_int (2 ^ nat (bitlen p - 1))"
    using b1 by (simp add: power_int_def)
  also have "\<dots> \<le> of_int p" using lo by (simp only: of_int_le_iff)
  finally show "(2::rat) powi (bitlen p - 1) \<le> of_int p" .
  have "(of_int p :: rat) < of_int (2 ^ nat (bitlen p))" using hi by (simp only: of_int_less_iff)
  also have "\<dots> = 2 powi bitlen p" using b1 by (simp add: power_int_def)
  finally show "of_int p < (2::rat) powi bitlen p" .
qed

lemma ilog2_bounds:
  assumes "x \<noteq> 0"
  shows "2 powi ilog2 x \<le> \<bar>x\<bar>" "\<bar>x\<bar> < 2 powi (ilog2 x + 1)"
proof -
  obtain p q where pq: "quotient_of \<bar>x\<bar> = (p, q)" by (cases "quotient_of \<bar>x\<bar>")
  then have q: "0 < q" and x: "\<bar>x\<bar> = of_int p / of_int q"
    by (auto dest: quotient_of_denom_pos quotient_of_div)
  from assms have "0 < \<bar>x\<bar>" by simp
  with x q have p: "0 < p" by (simp add: zero_less_divide_iff)
  define n where "n = bitlen p - bitlen q"
  note bp = bitlen_powi [OF p] and bq = bitlen_powi [OF q]
  have qpos: "(0::rat) < of_int q" using q by simp
  have pw: "(0::rat) < 2 powi k" for k by simp
  have "\<bar>x\<bar> < 2 powi bitlen p / of_int q"
    unfolding x using bp(2) qpos by (simp add: divide_strict_right_mono)
  also have "\<dots> \<le> 2 powi bitlen p / 2 powi (bitlen q - 1)"
    using bq(1) qpos pw by (intro divide_left_mono) simp_all
  also have "\<dots> = 2 powi (n + 1)"
    by (simp add: n_def power_int_diff [symmetric] algebra_simps)
  finally have up: "\<bar>x\<bar> < 2 powi (n + 1)" .
  have "(2::rat) powi (n - 1) = 2 powi (bitlen p - 1) / 2 powi bitlen q"
    by (simp add: n_def power_int_diff [symmetric] algebra_simps)
  also have "\<dots> \<le> of_int p / 2 powi bitlen q"
    using bp(1) pw by (simp add: divide_right_mono)
  also have "\<dots> \<le> of_int p / of_int q"
    using bq(2) qpos p by (intro divide_left_mono) simp_all
  finally have lo: "2 powi (n - 1) \<le> \<bar>x\<bar>" by (simp only: x)
  have il: "ilog2 x = (if 2 powi n \<le> \<bar>x\<bar> then n else n - 1)"
    by (simp add: ilog2_def pq n_def)
  show "2 powi ilog2 x \<le> \<bar>x\<bar>" using lo by (simp add: il)
  show "\<bar>x\<bar> < 2 powi (ilog2 x + 1)" using up by (auto simp add: il not_le)
qed

lemma powi_less_iff: "(2::rat) powi a < 2 powi b \<longleftrightarrow> a < b"
proof
  assume l: "(2::rat) powi a < 2 powi b"
  show "a < b"
  proof (rule ccontr)
    assume "\<not> a < b"
    then have "(2::rat) powi b \<le> 2 powi a" by (intro power_int_increasing) simp_all
    with l show False by simp
  qed
next
  assume "a < b"
  then show "(2::rat) powi a < 2 powi b" by (intro power_int_strict_increasing) simp_all
qed

lemma powi_le_iff: "(2::rat) powi a \<le> 2 powi b \<longleftrightarrow> a \<le> b"
  using powi_less_iff [of b a] by (simp add: not_less [symmetric])

lemma powi_cancel: "(2::rat) powi k * 2 powi (- k) = 1"
  by (simp add: power_int_add [symmetric])

lemma ilog2_less:
  assumes "x \<noteq> 0" "\<bar>x\<bar> < 2 powi m" shows "ilog2 x < m"
proof -
  from ilog2_bounds(1) [OF assms(1)] assms(2) have "(2::rat) powi ilog2 x < 2 powi m" by simp
  then show ?thesis by (simp only: powi_less_iff)
qed

lemma rd_error:
  assumes "x \<noteq> 0"
  shows "\<bar>rd x - x\<bar> \<le> 2 powi (ilog2 x - 53)"
proof -
  define k where "k = 52 - ilog2 x"
  define r where "r = round_half_even (x * 2 powi k)"
  have rdx: "rd x = of_int r * 2 powi (- k)"
    using assms by (simp add: rd_def k_def r_def Let_def)
  have "x = x * (2 powi k * 2 powi (- k))" by (simp only: powi_cancel mult_1_right)
  then have "rd x - x = (of_int r - x * 2 powi k) * 2 powi (- k)"
    unfolding rdx by (simp add: algebra_simps)
  then have "\<bar>rd x - x\<bar> = \<bar>of_int r - x * 2 powi k\<bar> * 2 powi (- k)"
    by (simp add: abs_mult)
  also have "\<dots> \<le> 1 / 2 * 2 powi (- k)"
    unfolding r_def by (intro mult_right_mono round_half_even_error) simp
  also have "\<dots> = 2 powi (ilog2 x - 53)"
  proof -
    have "(2::rat) powi ((ilog2 x - 53) + 1) = 2 powi (ilog2 x - 53) * 2"
      by (rule power_int_add_1) simp
    moreover have "(ilog2 x - 53) + 1 = - k" by (simp add: k_def)
    ultimately have "(2::rat) powi (- k) = 2 powi (ilog2 x - 53) * 2"
      by (simp only:)
    then show ?thesis by simp
  qed
  finally show ?thesis .
qed

text \<open>Below \<open>2 powi m\<close> the rounding error is at most half a unit in the last place there.\<close>

lemma rd_error_below:
  assumes "\<bar>x\<bar> < 2 powi m"
  shows "\<bar>rd x - x\<bar> \<le> 2 powi (m - 54)"
proof (cases "x = 0")
  case True
  then show ?thesis by (simp add: rd_def)
next
  case False
  from ilog2_less [OF False assms] have "ilog2 x - 53 \<le> m - 54" by simp
  then have "(2::rat) powi (ilog2 x - 53) \<le> 2 powi (m - 54)" by (simp only: powi_le_iff)
  with rd_error [OF False] show ?thesis by simp
qed

text \<open>Rounding leaves a float unchanged.\<close>

lemma rd_exact:
  assumes "\<bar>m\<bar> < 2 ^ 53"
  shows "rd (of_int m * 2 powi j) = of_int m * 2 powi j"
proof (cases "m = 0")
  case True
  then show ?thesis by (simp add: rd_def)
next
  case False
  define x :: rat where "x = of_int m * 2 powi j"
  have x0: "x \<noteq> 0" using False by (simp add: x_def)
  define k where "k = 52 - ilog2 x"
  have "\<bar>x\<bar> = of_int \<bar>m\<bar> * 2 powi j" by (simp add: x_def abs_mult)
  also have "\<dots> < of_int (2 ^ 53) * 2 powi j"
    using assms by (intro mult_strict_right_mono) (simp_all only: of_int_less_iff, simp)
  also have "\<dots> = 2 powi (53 + j)" by (simp add: power_int_add)
  finally have "ilog2 x < 53 + j" by (rule ilog2_less [OF x0])
  then have kj: "0 \<le> k + j" by (simp add: k_def)
  have "x * 2 powi k = of_int m * 2 powi (k + j)"
    by (simp add: x_def power_int_add algebra_simps)
  also have "\<dots> = of_int (m * 2 ^ nat (k + j))"
    using kj by (simp add: power_int_def)
  finally have "round_half_even (x * 2 powi k) = m * 2 ^ nat (k + j)"
    by (simp only: round_half_even_of_int)
  then have "rd x = of_int (m * 2 ^ nat (k + j)) * 2 powi (- k)"
    using x0 by (simp add: rd_def k_def Let_def)
  also have "\<dots> = of_int m * (2 powi (k + j) * 2 powi (- k))"
    using kj by (simp add: power_int_def)
  also have "\<dots> = of_int m * 2 powi j"
    by (simp add: power_int_add [symmetric])
  finally show ?thesis by (simp only: x_def)
qed

lemma rd_double: "is_double x \<Longrightarrow> rd x = x"
  by (auto simp: is_double_def rd_exact)

lemma round_half_even_bound:
  assumes "\<bar>y\<bar> < of_int n" shows "\<bar>round_half_even y\<bar> \<le> n"
proof -
  have "\<bar>of_int (round_half_even y) :: rat\<bar> \<le> \<bar>of_int (round_half_even y) - y\<bar> + \<bar>y\<bar>"
    by simp
  also have "\<dots> < 1 / 2 + of_int n"
    using round_half_even_error [of y] assms by simp
  finally have "(of_int \<bar>round_half_even y\<bar> :: rat) < of_int n + 1 / 2" by simp
  then have "(of_int \<bar>round_half_even y\<bar> :: rat) < of_int (n + 1)" by simp
  then have "\<bar>round_half_even y\<bar> < n + 1" by (simp only: of_int_less_iff)
  then show ?thesis by simp
qed

lemma rd_is_double: "is_double (rd x)"
proof (cases "x = 0")
  case True
  have "is_double 0" unfolding is_double_def by (intro exI [of _ 0]) simp
  with True show ?thesis by (simp add: rd_def)
next
  case False
  define k where "k = 52 - ilog2 x"
  define r where "r = round_half_even (x * 2 powi k)"
  have rdx: "rd x = of_int r * 2 powi (- k)"
    using False by (simp add: rd_def k_def r_def Let_def)
  have "\<bar>x * 2 powi k\<bar> = \<bar>x\<bar> * 2 powi k" by (simp add: abs_mult)
  also have "\<dots> < 2 powi (ilog2 x + 1) * 2 powi k"
    using ilog2_bounds(2) [OF False] by (intro mult_strict_right_mono) simp_all
  also have "\<dots> = 2 powi 53" by (simp add: power_int_add [symmetric] k_def)
  finally have "\<bar>x * 2 powi k\<bar> < of_int (2 ^ 53)" by simp
  then have r: "\<bar>r\<bar> \<le> 2 ^ 53" unfolding r_def by (rule round_half_even_bound)
  show ?thesis
  proof (cases "\<bar>r\<bar> < 2 ^ 53")
    case True
    then show ?thesis unfolding is_double_def rdx by blast
  next
    case False
    with r have "r = 2 ^ 53 \<or> r = - (2 ^ 53)" by auto
    then have "rd x = of_int (r div 2) * 2 powi (1 - k)"
      unfolding rdx by (auto simp: power_int_diff power_int_minus divide_inverse)
    moreover from r have "\<bar>r div 2\<bar> < 2 ^ 53" by auto
    ultimately show ?thesis unfolding is_double_def by blast
  qed
qed

lemma is_double_scale:
  assumes "is_double x" shows "is_double (x * 2 powi j)"
proof -
  from assms obtain m i where m: "\<bar>m\<bar> < 2 ^ 53" and x: "x = of_int m * 2 powi i"
    unfolding is_double_def by blast
  have "x * 2 powi j = of_int m * 2 powi (i + j)"
    by (simp add: x power_int_add)
  with m show ?thesis unfolding is_double_def by blast
qed

lemma is_double_of_int: "\<bar>m\<bar> < 2 ^ 53 \<Longrightarrow> is_double (of_int m)"
  unfolding is_double_def by (intro exI [of _ m] exI [of _ 0]) simp

lemma py_int_nonneg: "0 \<le> x \<Longrightarrow> py_int x = \<lfloor>x\<rfloor>"
  by (simp add: py_int_def)

lemma total_seconds_floor:
  assumes "0 \<le> N" "N < 4294967296000000"
  shows "py_int (int_truediv N 1000000) = N div 1000000"
proof -
  define s u where "s = N div 1000000" and "u = N mod 1000000"
  define x :: rat where "x = of_int N / 1000000"
  have N: "N = s * 1000000 + u" by (simp add: s_def u_def)
  have u: "0 \<le> u" "u < 1000000" by (simp_all add: u_def)
  have s: "0 \<le> s" "s < 4294967296" using assms u N by linarith+
  have xs: "x = of_int s + of_int u / 1000000" by (simp add: x_def N)
  have rdx: "int_truediv N 1000000 = rd x" by (simp add: int_truediv_def x_def)
  show ?thesis
  proof (cases "u = 0")
    case True
    have "rd (of_int s * 2 powi 0) = of_int s * 2 powi 0"
      using s by (intro rd_exact) simp
    with True have "rd x = of_int s" by (simp add: xs)
    then show ?thesis using s by (simp add: rdx py_int_def s_def)
  next
    case False
    with u have u1: "1 \<le> u" "u \<le> 999999" by simp_all
    have "\<bar>x\<bar> < 2 powi 32" using s u assms by (simp add: x_def)
    from rd_error_below [OF this] have e: "\<bar>rd x - x\<bar> \<le> 1 / 4194304"
      by (simp add: power_int_minus)
    have lo: "of_int s + 1 / 1000000 \<le> x" using u1 by (simp add: xs)
    have hi: "x \<le> of_int s + 999999 / 1000000" using u1 by (simp add: xs)
    have "of_int s \<le> rd x" "rd x < of_int s + 1" using e lo hi by linarith+
    then have "\<lfloor>rd x\<rfloor> = s" "0 \<le> rd x" using s by (simp_all add: floor_unique)
    then show ?thesis by (simp add: rdx py_int_def s_def)
  qed
qed

lemma fraction_floor:
  assumes "0 \<le> u" "u < 1000000"
  shows "py_int (float_mul (int_truediv u 1000000) (2 ^ 32)) = (u * 2 ^ 32) div 1000000"
proof -
  define a b where "a = (u * 4294967296) div 1000000" and "b = (u * 4294967296) mod 1000000"
  define x :: rat where "x = of_int u / 1000000"
  define q where "q = rd x"
  have ab: "u * 4294967296 = a * 1000000 + b"
    unfolding a_def b_def by (simp only: div_mult_mod_eq)
  have b: "0 \<le> b" "b < 1000000" unfolding b_def by (simp_all only: pos_mod_sign pos_mod_bound zero_less_numeral)
  have a: "0 \<le> a" using assms unfolding a_def by (simp add: pos_imp_zdiv_nonneg_iff)
  have "is_double (q * 2 powi 32)" unfolding q_def by (intro is_double_scale rd_is_double)
  then have "rd (q * 2 ^ 32) = q * 2 ^ 32" using rd_double by fastforce
  then have fm: "float_mul (int_truediv u 1000000) 4294967296 = q * 4294967296"
    by (simp add: float_mul_def int_truediv_def q_def x_def)
  have y: "x * 4294967296 = of_int a + of_int b / 1000000"
  proof -
    have "x * 4294967296 = of_int (u * 4294967296) / 1000000" by (simp add: x_def)
    also have "\<dots> = of_int a + of_int b / 1000000" by (simp only: ab) simp
    finally show ?thesis .
  qed
  have d64: "64 dvd b" unfolding b_def by (intro dvd_mod) simp_all
  show ?thesis
  proof (cases "b = 0")
    case True
    with ab have "67108864 * u = 15625 * a" by simp
    then have "15625 dvd 67108864 * u" by simp
    moreover have "coprime (15625::int) 67108864" by code_simp
    ultimately have "15625 dvd u" by (simp only: coprime_dvd_mult_right_iff)
    then obtain j where j: "u = 15625 * j" ..
    with assms have jb: "0 \<le> j" "j < 64" by simp_all
    have xj: "x = of_int j * 2 powi (- 6)" by (simp add: x_def j power_int_minus)
    have "rd (of_int j * 2 powi (- 6)) = of_int j * 2 powi (- 6)"
      using jb by (intro rd_exact) simp
    then have "q = x" unfolding q_def xj .
    with y True have "q * 4294967296 = of_int a" by simp
    then show ?thesis using a by (simp add: fm py_int_def a_def)
  next
    case False
    with b d64 have b1: "64 \<le> b" "b \<le> 999936" by presburger+
    have "\<bar>x\<bar> < 2 powi 0" using assms by (simp add: x_def)
    from rd_error_below [OF this] have "\<bar>q - x\<bar> \<le> 1 / 18014398509481984"
      by (simp add: power_int_minus q_def)
    then have e: "\<bar>q * 4294967296 - x * 4294967296\<bar> \<le> 1 / 4194304"
      by (simp add: abs_if split: if_splits)
    have lo: "of_int a + 64 / 1000000 \<le> x * 4294967296" using b1 by (simp add: y)
    have hi: "x * 4294967296 \<le> of_int a + 999936 / 1000000" using b1 by (simp add: y)
    have "of_int a \<le> q * 4294967296" "q * 4294967296 < of_int a + 1" using e lo hi by linarith+
    then have "\<lfloor>q * 4294967296\<rfloor> = a" "0 \<le> q * 4294967296" using a by (simp_all add: floor_unique)
    then show ?thesis by (simp add: fm py_int_def a_def)
  qed
qed

lemma micros_floor:
  assumes "0 \<le> f" "f < 4294967296"
  shows "py_int (float_mul (int_truediv f (2 ^ 32)) 1000000) = (f * 1000000) div 4294967296"
proof -
  have p: "(2::rat) powi (- 32) = 1 / 4294967296" by (simp add: power_int_minus)
  have "rd (of_int f * 2 powi (- 32)) = of_int f * 2 powi (- 32)"
    using assms by (intro rd_exact) simp
  then have "rd (of_int f / 4294967296) = of_int f / 4294967296"
    unfolding p by simp
  then have q: "int_truediv f (2 ^ 32) = of_int f / 4294967296"
    by (simp add: int_truediv_def)
  have "rd (of_int (f * 1000000) * 2 powi (- 32)) = of_int (f * 1000000) * 2 powi (- 32)"
    using assms by (intro rd_exact) simp
  then have "rd (of_int f / 4294967296 * 1000000) = of_int (f * 1000000) / 4294967296"
    unfolding p by simp
  then have m: "float_mul (int_truediv f (2 ^ 32)) 1000000 = of_int (f * 1000000) / of_int 4294967296"
    unfolding q float_mul_def by simp
  have "(0::rat) \<le> of_int (f * 1000000) / of_int 4294967296" using assms by simp
  then show ?thesis
    unfolding m py_int_def by (simp only: if_True floor_divide_of_int_eq)
qed


lemma NTP_EPOCH_eq: "NTP_EPOCH = \<lparr>wall = 59926608000000000, tzinfo = Some 0\<rparr>"
  by (simp add: NTP_EPOCH_def civil_def ymd2ord_def days_before_year_def
      days_before_month_def is_leap_def utc_def)

lemma utc_us_NTP_EPOCH: "utc_us NTP_EPOCH = 59926608000000000"
  by (simp add: NTP_EPOCH_eq utc_us_def)

lemma total_us_of_us: "total_us (timedelta_of_us us) = us"
proof -
  have "us div 86400000000 = us div (1000000 * 86400)" by simp
  also have "\<dots> = us div 1000000 div 86400" by (rule zdiv_zmult2_eq) simp
  finally have d: "us div 86400000000 = us div 1000000 div 86400" .
  have "us div 1000000 div 86400 * 86400 + us div 1000000 mod 86400 = us div 1000000"
    by (rule div_mult_mod_eq)
  moreover have "us div 1000000 * 1000000 + us mod 1000000 = us"
    by (rule div_mult_mod_eq)
  ultimately show ?thesis
    unfolding total_us_def timedelta_of_us_def d by (simp only: timedelta.simps)
qed

lemma td_microseconds_of_us: "td_microseconds (timedelta_of_us us) = us mod 1000000"
  by (simp add: timedelta_of_us_def)

lemma mask32: "(x::int) AND 0xFFFFFFFF = take_bit 32 x"
  by (simp add: take_bit_eq_mask mask_eq_exp_minus_1)

lemma low_bits:
  assumes "0 \<le> f" "f < (4294967296::int)"
  shows "(push_bit 32 s OR f) AND 0xFFFFFFFF = f"
proof -
  have "take_bit 32 (push_bit 32 s OR f) = take_bit 32 f"
    by (simp add: take_bit_or take_bit_push_bit)
  also have "\<dots> = f" using assms by (intro take_bit_int_eq_self) simp_all
  finally show ?thesis by (simp only: mask32)
qed

lemma high_bits:
  assumes "0 \<le> f" "f < (4294967296::int)" "0 \<le> s" "s < (4294967296::int)"
  shows "drop_bit 32 (push_bit 32 s OR f) AND 0xFFFFFFFF = s"
proof -
  have "drop_bit 32 f = 0" using assms by (simp add: drop_bit_eq_div)
  moreover have "drop_bit 32 (push_bit 32 s) = s"
    by (simp add: drop_bit_eq_div push_bit_eq_mult)
  ultimately have "drop_bit 32 (push_bit 32 s OR f) = s" by (simp only: drop_bit_or or.right_neutral)
  moreover have "take_bit 32 s = s" using assms by (intro take_bit_int_eq_self) simp_all
  ultimately show ?thesis by (simp only: mask32)
qed

section \<open>Properties of the time codec\<close>

text \<open>The encoder as a function of the instant alone.\<close>

lemma tagged_utc_us:
  "utc_us (if tzinfo d = None then replace_tzinfo d utc else d) = utc_us d"
  by (simp add: utc_us_def replace_tzinfo_def utc_def)

lemma astimezone_utc_tagged:
  "astimezone_utc (if tzinfo d = None then replace_tzinfo d utc else d) =
     (if in_range (utc_us d) then Inr \<lparr>wall = utc_us d, tzinfo = utc\<rparr> else Inl OverflowError)"
  by (cases "tzinfo d") (simp_all add: astimezone_utc_def utc_us_def replace_tzinfo_def utc_def)

lemma datetime_to_ntp_timestamp_eq:
  "datetime_to_ntp_timestamp d =
     (if in_range (utc_us d)
      then Inr (push_bit 32 (py_int (int_truediv (ntp_us d) 1000000)) OR
                py_int (float_mul (int_truediv (ntp_us d mod 1000000) 1000000) (2 ^ 32)))
      else Inl OverflowError)"
proof -
  have u: "utc_us \<lparr>wall = utc_us d, tzinfo = utc\<rparr> = utc_us d"
    by (simp add: utc_us_def utc_def)
  show ?thesis
    unfolding datetime_to_ntp_timestamp_def Let_def astimezone_utc_tagged
    by (simp add: datetime_sub_def u total_seconds_def total_us_of_us ntp_us_def
        td_microseconds_of_us)
qed

lemma fraction_range:
  assumes "0 \<le> u" "u < (1000000::int)"
  shows "0 \<le> (u * 4294967296) div 1000000" "(u * 4294967296) div 1000000 < 4294967296"
  using assms by (simp_all add: pos_imp_zdiv_nonneg_iff div_less_iff_less_mult) 

lemma div_bounds:
  assumes "0 < (b::int)"
  shows "a div b * b \<le> a" "a < (a div b + 1) * b"
proof -
  have e: "a div b * b + a mod b = a" by (rule div_mult_mod_eq)
  have m: "0 \<le> a mod b" "a mod b < b" using assms by simp_all
  show "a div b * b \<le> a" using e m by linarith
  have "(a div b + 1) * b = a div b * b + b" by (simp add: algebra_simps)
  then show "a < (a div b + 1) * b" using e m by linarith
qed

lemma in_range_ntp_era:
  assumes "0 \<le> ntp_us x" "ntp_us x < 4294967296000000"
  shows "in_range (utc_us x)"
  using assms by (simp add: in_range_def ntp_us_def utc_us_NTP_EPOCH)

lemma ntp_timestamp_to_datetime_eq:
  assumes "0 \<le> s" "s < 4294967296" "0 \<le> f" "f < 4294967296"
  shows "ntp_timestamp_to_datetime (push_bit 32 s OR f) =
     Inr \<lparr>wall = 59926608000000000 + s * 1000000 + f * 1000000 div 4294967296, tzinfo = utc\<rparr>"
proof -
  define u where "u = f * 1000000 div 4294967296"
  have u: "0 \<le> u" "u < 1000000"
    using assms unfolding u_def by (simp_all add: pos_imp_zdiv_nonneg_iff div_less_iff_less_mult)
  have m: "py_int (float_mul (int_truediv f (2 ^ 32)) 1000000) = u"
    unfolding u_def using assms(3,4) by (rule micros_floor)
  have r: "in_range (59926608000000000 + (s * 1000000 + u))"
    using assms u by (simp add: in_range_def)
  show ?thesis
    unfolding ntp_timestamp_to_datetime_def Let_def
      low_bits [OF assms(3,4)] high_bits [OF assms(3,4) assms(1,2)] m
    using r
    by (simp add: datetime_add_def timedelta_int_def total_us_of_us NTP_EPOCH_eq
        replace_tzinfo_def utc_def u_def)
qed

text \<open>
  C1 (codec round trip). For every value \<open>x\<close>, naive or aware, that denotes an instant
  at or after the NTP epoch whose whole seconds fit 32 bits (before 2036-02-07T06:28:16
  UTC), the encoder returns a timestamp, the decoder returns a UTC value \<open>y\<close> from it,
  \<open>y\<close> has the same whole second as \<open>x\<close>, and \<open>y\<close> is \<open>x\<close> or one microsecond before
  it: equal to within one microsecond.
\<close>

theorem codec_round_trip:
  assumes "0 \<le> ntp_us x" "ntp_us x < 2 ^ 32 * 1000000"
  shows "\<exists>ts y. datetime_to_ntp_timestamp x = Inr ts \<and>
           ntp_timestamp_to_datetime ts = Inr y \<and> tzinfo y = utc \<and>
           ntp_us y div 1000000 = ntp_us x div 1000000 \<and>
           ntp_us y \<le> ntp_us x \<and> ntp_us x - ntp_us y \<le> 1"
proof -
  define N where "N = ntp_us x"
  define s u where "s = N div 1000000" and "u = N mod 1000000"
  define f where "f = u * 4294967296 div 1000000"
  define u' where "u' = f * 1000000 div 4294967296"
  have N: "0 \<le> N" "N < 4294967296000000" using assms by (simp_all add: N_def)
  have Nsu: "N = s * 1000000 + u" by (simp add: s_def u_def)
  have u: "0 \<le> u" "u < 1000000" by (simp_all add: u_def)
  have s: "0 \<le> s" "s < 4294967296" using N u Nsu by linarith+
  have f: "0 \<le> f" "f < 4294967296" unfolding f_def using u by (rule fraction_range)+
  have sec: "py_int (int_truediv N 1000000) = s"
    unfolding s_def using N by (rule total_seconds_floor)
  have frac: "py_int (float_mul (int_truediv u 1000000) 4294967296) = f"
    using fraction_floor [OF u] by (simp add: f_def)
  have enc: "datetime_to_ntp_timestamp x = Inr (push_bit 32 s OR f)"
    using in_range_ntp_era [of x] N
    by (simp add: datetime_to_ntp_timestamp_eq N_def [symmetric] sec u_def [symmetric] frac)
  define y where "y = \<lparr>wall = 59926608000000000 + s * 1000000 + u', tzinfo = utc\<rparr>"
  have dec: "ntp_timestamp_to_datetime (push_bit 32 s OR f) = Inr y"
    unfolding y_def u'_def using s f by (rule ntp_timestamp_to_datetime_eq)
  have ny: "ntp_us y = s * 1000000 + u'"
    unfolding ntp_us_def utc_us_NTP_EPOCH by (simp add: utc_us_def y_def utc_def)
  have fl: "f * 1000000 \<le> u * 4294967296" "u * 4294967296 < (f + 1) * 1000000"
    unfolding f_def by (rule div_bounds, simp)+
  have ul: "u' * 4294967296 \<le> f * 1000000" "f * 1000000 < (u' + 1) * 4294967296"
    unfolding u'_def by (rule div_bounds, simp)+
  have "u' * 4294967296 \<le> u * 4294967296" using fl ul by linarith
  then have u'1: "u' \<le> u" by simp
  have "(f + 1) * 1000000 = f * 1000000 + 1000000"
    "(u' + 1) * 4294967296 = u' * 4294967296 + 4294967296" by (simp_all add: algebra_simps)
  with fl ul have "u * 4294967296 < (u' + 2) * 4294967296" by (simp add: algebra_simps)
  then have "u < u' + 2" by simp
  with u'1 have u': "u' \<le> u" "u - 1 \<le> u'" by simp_all
  have "0 \<le> u'" using f unfolding u'_def by (simp add: pos_imp_zdiv_nonneg_iff)
  with u' u have u'r: "0 \<le> u'" "u' < 1000000" by linarith+
  have "ntp_us y div 1000000 = s" unfolding ny using u'r by simp
  moreover have "ntp_us x div 1000000 = s" by (simp add: s_def N_def)
  moreover have "tzinfo y = utc" by (simp add: y_def)
  moreover have "ntp_us y \<le> ntp_us x" "ntp_us x - ntp_us y \<le> 1"
    using u' by (simp_all add: ny N_def [symmetric] Nsu)
  ultimately show ?thesis using enc dec by (intro exI [of _ "push_bit 32 s OR f"] exI [of _ y]) simp
qed

theorem codec_round_trip_witness:
  "0 \<le> ntp_us (civil 2024 1 15 10 30 0 1 (Some 3600000000)) \<and>
   ntp_us (civil 2024 1 15 10 30 0 1 (Some 3600000000)) < 2 ^ 32 * 1000000 \<and>
   (\<exists>ts y. datetime_to_ntp_timestamp (civil 2024 1 15 10 30 0 1 (Some 3600000000)) = Inr ts \<and>
           ntp_timestamp_to_datetime ts = Inr y \<and> tzinfo y = utc \<and>
           ntp_us y div 1000000 = ntp_us (civil 2024 1 15 10 30 0 1 (Some 3600000000)) div 1000000 \<and>
           ntp_us y \<le> ntp_us (civil 2024 1 15 10 30 0 1 (Some 3600000000)) \<and>
           ntp_us (civil 2024 1 15 10 30 0 1 (Some 3600000000)) - ntp_us y \<le> 1)"
proof -
  let ?x = "civil 2024 1 15 10 30 0 1 (Some 3600000000)"
  have h1: "0 \<le> ntp_us ?x" by code_simp
  have h2: "ntp_us ?x < 2 ^ 32 * 1000000" by code_simp
  from h1 h2 codec_round_trip [OF h1 h2] show ?thesis by (simp only: simp_thms)
qed

text \<open>
  C7 (fraction encoding). The claim says the low 32 bits are the rounding to nearest of
  the scaled microsecond remainder. The code converts with \<open>int\<close>, which truncates:
  whenever the encoder returns a timestamp, its low 32 bits are the floor of
  \<open>(microseconds / 1,000,000) * 2^32\<close>, where \<open>microseconds\<close> is the sub-second
  remainder of the offset from the NTP epoch. The float computation of the code gives
  exactly this floor for every remainder, and the value is below \<open>2 ^ 32\<close>, so masking
  changes nothing.
\<close>

theorem fraction_truncates:
  assumes "datetime_to_ntp_timestamp d = Inr ts"
  shows "ts AND 0xFFFFFFFF = \<lfloor>of_int (ntp_us d mod 1000000) / 1000000 * 2 ^ 32 :: rat\<rfloor>"
proof -
  define u where "u = ntp_us d mod 1000000"
  define f where "f = u * 4294967296 div 1000000"
  have u: "0 \<le> u" "u < 1000000" by (simp_all add: u_def)
  have f: "0 \<le> f" "f < 4294967296" unfolding f_def using u by (rule fraction_range)+
  have frac: "py_int (float_mul (int_truediv u 1000000) 4294967296) = f"
    using fraction_floor [OF u] by (simp add: f_def)
  from assms have "ts = push_bit 32 (py_int (int_truediv (ntp_us d) 1000000)) OR f"
    by (simp add: datetime_to_ntp_timestamp_eq u_def [symmetric] frac split: if_splits)
  then have "ts AND 0xFFFFFFFF = f" using f by (simp only: low_bits)
  moreover have "\<lfloor>of_int u / 1000000 * 2 ^ 32 :: rat\<rfloor> = f"
  proof -
    have "(of_int u / 1000000 * 2 ^ 32 :: rat) = of_int (u * 4294967296) / of_int 1000000" by simp
    then show ?thesis unfolding f_def by (simp only: floor_divide_of_int_eq)
  qed
  ultimately show ?thesis by (simp only: u_def)
qed

theorem fraction_truncates_witness:
  "datetime_to_ntp_timestamp (civil 1900 1 1 0 0 0 1 utc) = Inr 4294 \<and>
   4294 AND 0xFFFFFFFF =
     \<lfloor>of_int (ntp_us (civil 1900 1 1 0 0 0 1 utc) mod 1000000) / 1000000 * 2 ^ 32 :: rat\<rfloor>"
proof -
  have h: "datetime_to_ntp_timestamp (civil 1900 1 1 0 0 0 1 utc) = Inr 4294" by code_simp
  from h fraction_truncates [OF h] show ?thesis by (simp only: simp_thms)
qed

text \<open>
  One microsecond after the epoch the scaled remainder is 4294.967296: the code stores
  4294, rounding to nearest would store 4295.
\<close>

theorem fraction_rounding_counterexample:
  "datetime_to_ntp_timestamp (civil 1900 1 1 0 0 0 1 utc) = Inr 4294 \<and>
   4294 AND 0xFFFFFFFF \<noteq> spec_fraction (ntp_us (civil 1900 1 1 0 0 0 1 utc) mod 1000000)"
  by code_simp






section \<open>Properties of the response encoder\<close>

lemma or_add:
  assumes "0 \<le> f" "f < (4294967296::int)"
  shows "push_bit 32 s OR f = s * 4294967296 + f"
proof -
  define x where "x = push_bit 32 s OR f"
  have "drop_bit 32 f = 0" using assms by (simp add: drop_bit_eq_div)
  moreover have "drop_bit 32 (push_bit 32 s) = s"
    by (simp add: drop_bit_eq_div push_bit_eq_mult)
  ultimately have d: "drop_bit 32 x = s" unfolding x_def by (simp only: drop_bit_or or.right_neutral)
  have "take_bit 32 x = take_bit 32 f"
    unfolding x_def by (simp add: take_bit_or take_bit_push_bit)
  also have "\<dots> = f" using assms by (intro take_bit_int_eq_self) simp_all
  finally have t: "take_bit 32 x = f" .
  have "push_bit 32 (drop_bit 32 x) + take_bit 32 x = x" by (rule bits_ident)
  then have "x = s * 4294967296 + f" unfolding d t by (simp add: push_bit_eq_mult)
  then show ?thesis by (simp only: x_def)
qed

lemma encode_in_era:
  assumes "0 \<le> ntp_us x" "ntp_us x < 4294967296000000"
  shows "datetime_to_ntp_timestamp x =
     Inr (push_bit 32 (ntp_us x div 1000000) OR (ntp_us x mod 1000000 * 4294967296 div 1000000))"
proof -
  define u where "u = ntp_us x mod 1000000"
  have u: "0 \<le> u" "u < 1000000" by (simp_all add: u_def)
  have sec: "py_int (int_truediv (ntp_us x) 1000000) = ntp_us x div 1000000"
    using assms by (rule total_seconds_floor)
  have frac: "py_int (float_mul (int_truediv u 1000000) 4294967296) = u * 4294967296 div 1000000"
    using fraction_floor [OF u] by simp
  show ?thesis
    using in_range_ntp_era [OF assms]
    by (simp add: datetime_to_ntp_timestamp_eq sec u_def [symmetric] frac)
qed

lemma encode_range:
  assumes "0 \<le> ntp_us x" "ntp_us x < 4294967296000000"
  shows "\<exists>ts. datetime_to_ntp_timestamp x = Inr ts \<and> 0 \<le> ts \<and> ts < 18446744073709551616"
proof -
  define s f where "s = ntp_us x div 1000000" and "f = ntp_us x mod 1000000 * 4294967296 div 1000000"
  have f: "0 \<le> f" "f < 4294967296" unfolding f_def by (rule fraction_range, simp_all)+
  have "s * 1000000 \<le> ntp_us x" unfolding s_def by (rule div_bounds) simp
  moreover have "ntp_us x < (s + 1) * 1000000" unfolding s_def by (rule div_bounds) simp
  then have "ntp_us x < s * 1000000 + 1000000" by (simp add: algebra_simps)
  ultimately have s: "0 \<le> s" "s < 4294967296" using assms by linarith+
  have "datetime_to_ntp_timestamp x = Inr (s * 4294967296 + f)"
    unfolding encode_in_era [OF assms] s_def [symmetric] f_def [symmetric] or_add [OF f] ..
  moreover have "0 \<le> s * 4294967296 + f" "s * 4294967296 + f < 18446744073709551616"
    using s f by linarith+
  ultimately show ?thesis by blast
qed

lemma header_fields:
  "struct_pack_BBB (push_bit 6 0 OR push_bit 3 4 OR 4) 2 1 = Inr [36, 2, 1]"
  "struct_pack_b (- 20) = Inr [236]"
  "struct_pack_unsigned 4 (py_int (float_mul (rd (1 / 1000)) (of_int (push_bit 16 1)))) =
     Inr [0, 0, 0, 65]"
  by code_simp+

lemma struct_pack_Q:
  "struct_pack_unsigned 8 v =
     (if 0 \<le> v \<and> v < 18446744073709551616 then Inr (be_bytes 8 v) else Inl StructError)"
  by (simp add: struct_pack_unsigned_def)

lemma build_ntp_response_eq:
  "build_ntp_response origin r t =
     (case datetime_to_ntp_timestamp r of
        Inl e \<Rightarrow> Inl e
      | Inr rn \<Rightarrow>
     (case datetime_to_ntp_timestamp t of
        Inl e \<Rightarrow> Inl e
      | Inr tn \<Rightarrow>
          if (0 \<le> tn \<and> tn < 18446744073709551616) \<and>
             (0 \<le> origin \<and> origin < 18446744073709551616) \<and>
             (0 \<le> rn \<and> rn < 18446744073709551616)
          then Inr ([36, 2, 1, 236, 0, 0, 0, 65, 0, 0, 0, 65, 76, 79, 67, 76] @
                    be_bytes 8 tn @ be_bytes 8 origin @ be_bytes 8 rn @ be_bytes 8 tn)
          else Inl StructError))"
proof (cases "datetime_to_ntp_timestamp r")
  case (Inl e)
  then show ?thesis by (simp add: build_ntp_response_def)
next
  case rn: (Inr rn)
  show ?thesis
  proof (cases "datetime_to_ntp_timestamp t")
    case (Inl e)
    with rn show ?thesis by (simp add: build_ntp_response_def)
  next
    case tn: (Inr tn)
    show ?thesis
      unfolding build_ntp_response_def Let_def header_fields struct_pack_Q rn tn
      by (simp add: pack_append_def)
  qed
qed


lemma build_ntp_response_Inr:
  assumes "build_ntp_response origin r t = Inr packet"
  obtains rn tn where
    "packet = [36, 2, 1, 236, 0, 0, 0, 65, 0, 0, 0, 65, 76, 79, 67, 76] @
              be_bytes 8 tn @ be_bytes 8 origin @ be_bytes 8 rn @ be_bytes 8 tn"
  using assms unfolding build_ntp_response_eq
  by (auto split: sum.splits if_splits)

lemma build_ntp_response_era:
  assumes "0 \<le> origin" "origin < 18446744073709551616"
    and "0 \<le> ntp_us r" "ntp_us r < 4294967296000000"
    and "0 \<le> ntp_us t" "ntp_us t < 4294967296000000"
  shows "\<exists>packet. build_ntp_response origin r t = Inr packet"
proof -
  from encode_range [OF assms(3,4)] obtain rn where
    rn: "datetime_to_ntp_timestamp r = Inr rn" "0 \<le> rn" "rn < 18446744073709551616" by blast
  from encode_range [OF assms(5,6)] obtain tn where
    tn: "datetime_to_ntp_timestamp t = Inr tn" "0 \<le> tn" "tn < 18446744073709551616" by blast
  show ?thesis unfolding build_ntp_response_eq using rn tn assms(1,2) by simp
qed

text \<open>
  C3 (response shape). The claim quantifies over every triple of inputs, but
  \<open>struct.pack('!Q', _)\<close> raises \<open>struct.error\<close> when a timestamp does not fit 64 bits,
  which happens for instants outside 1900-01-01 .. 2036-02-07T06:28:16 UTC. What holds:
  whenever \<open>build_ntp_response\<close> returns a packet, the packet has exactly 48 bytes,
  byte 0 is \<open>0b00100100\<close>, byte 1 is 2 and bytes 12..15 are \<open>LOCL\<close>; and it returns a
  packet for every origin below \<open>2 ^ 64\<close> and every receive and transmit instant from
  the NTP epoch up to the last instant whose seconds fit 32 bits.
\<close>

theorem response_shape:
  "(build_ntp_response origin_time receive_time transmit_time = Inr packet \<longrightarrow>
      length packet = 48 \<and> packet ! 0 = 0x24 \<and> packet ! 1 = 2 \<and>
      bytes_slice 12 16 packet = [0x4C, 0x4F, 0x43, 0x4C]) \<and>
   (0 \<le> origin_time \<and> origin_time < 2 ^ 64 \<and>
    0 \<le> ntp_us receive_time \<and> ntp_us receive_time < 2 ^ 32 * 1000000 \<and>
    0 \<le> ntp_us transmit_time \<and> ntp_us transmit_time < 2 ^ 32 * 1000000 \<longrightarrow>
      (\<exists>p. build_ntp_response origin_time receive_time transmit_time = Inr p))"
proof (intro conjI impI)
  assume b: "build_ntp_response origin_time receive_time transmit_time = Inr packet"
  then obtain rn tn where
    p: "packet = [36, 2, 1, 236, 0, 0, 0, 65, 0, 0, 0, 65, 76, 79, 67, 76] @
              be_bytes 8 tn @ be_bytes 8 origin_time @ be_bytes 8 rn @ be_bytes 8 tn"
    by (rule build_ntp_response_Inr)
  show "length packet = 48" by (simp add: p length_be_bytes)
  show "packet ! 0 = 0x24" by (simp add: p)
  show "packet ! 1 = 2" by (simp add: p)
  show "bytes_slice 12 16 packet = [0x4C, 0x4F, 0x43, 0x4C]"
    by (simp add: p bytes_slice_def)
next
  assume "0 \<le> origin_time \<and> origin_time < 2 ^ 64 \<and>
    0 \<le> ntp_us receive_time \<and> ntp_us receive_time < 2 ^ 32 * 1000000 \<and>
    0 \<le> ntp_us transmit_time \<and> ntp_us transmit_time < 2 ^ 32 * 1000000"
  then show "\<exists>p. build_ntp_response origin_time receive_time transmit_time = Inr p"
    by (intro build_ntp_response_era) simp_all
qed

theorem response_shape_witness:
  "build_ntp_response 0 (civil 2024 1 15 10 30 0 0 utc) (civil 2024 1 15 10 30 0 0 utc) =
     Inr [36, 2, 1, 236, 0, 0, 0, 65, 0, 0, 0, 65, 76, 79, 67, 76,
          233, 79, 135, 168, 0, 0, 0, 0, 0, 0, 0, 0, 0, 0, 0, 0,
          233, 79, 135, 168, 0, 0, 0, 0, 233, 79, 135, 168, 0, 0, 0, 0] \<and>
   bytes_slice 12 16 [36, 2, 1, 236, 0, 0, 0, 65, 0, 0, 0, 65, 76, 79, 67, 76,
          233, 79, 135, 168, 0, 0, 0, 0, 0, 0, 0, 0, 0, 0, 0, 0,
          233, 79, 135, 168, 0, 0, 0, 0, 233, 79, 135, 168, 0, 0, 0, 0 :: byte] =
     [0x4C, 0x4F, 0x43, 0x4C] \<and>
   (\<exists>p. build_ntp_response 0 (civil 2024 1 15 10 30 0 0 utc) (civil 2024 1 15 10 30 0 0 utc) = Inr p)"
proof -
  let ?t = "civil 2024 1 15 10 30 0 0 utc"
  let ?p = "[36, 2, 1, 236, 0, 0, 0, 65, 0, 0, 0, 65, 76, 79, 67, 76,
          233, 79, 135, 168, 0, 0, 0, 0, 0, 0, 0, 0, 0, 0, 0, 0,
          233, 79, 135, 168, 0, 0, 0, 0, 233, 79, 135, 168, 0, 0, 0, 0 :: byte]"
  have b: "build_ntp_response 0 ?t ?t = Inr ?p" by code_simp
  have h: "(0::int) \<le> 0 \<and> (0::int) < 2 ^ 64 \<and>
    0 \<le> ntp_us ?t \<and> ntp_us ?t < 2 ^ 32 * 1000000 \<and>
    0 \<le> ntp_us ?t \<and> ntp_us ?t < 2 ^ 32 * 1000000" by code_simp
  from response_shape [of 0 ?t ?t ?p] b h show ?thesis by blast
qed

text \<open>
  At 2036-02-07T06:28:16 UTC the seconds reach \<open>2 ^ 32\<close>, the timestamp is \<open>2 ^ 64\<close>,
  and no packet is returned.
\<close>

theorem response_shape_counterexample:
  "build_ntp_response 0 (civil 2024 1 15 10 30 0 0 utc) (civil 2036 2 7 6 28 16 0 utc) =
     Inl StructError"
  by code_simp

text \<open>
  C2 (origin echo). For a request of at least 48 bytes the decoder returns the bytes
  24..31 read as a big-endian unsigned integer, and every response built from that
  value carries the same eight bytes at its offsets 24..31. A response is built for all
  receive and transmit instants in the range of the timestamp format.
\<close>

theorem origin_echo:
  assumes "48 \<le> length data"
  shows "parse_ntp_request data = Some (be_int (bytes_slice 24 32 data)) \<and>
    (\<forall>packet. build_ntp_response (be_int (bytes_slice 24 32 data)) receive_time transmit_time
         = Inr packet \<longrightarrow>
       bytes_slice 24 32 packet = bytes_slice 24 32 data) \<and>
    (0 \<le> ntp_us receive_time \<and> ntp_us receive_time < 2 ^ 32 * 1000000 \<and>
     0 \<le> ntp_us transmit_time \<and> ntp_us transmit_time < 2 ^ 32 * 1000000 \<longrightarrow>
       (\<exists>packet. build_ntp_response (be_int (bytes_slice 24 32 data)) receive_time transmit_time
          = Inr packet))"
proof (intro conjI allI impI)
  define B where "B = bytes_slice 24 32 data"
  have len: "length B = 8" unfolding B_def using assms by (rule slice_request)
  show "parse_ntp_request data = Some (be_int (bytes_slice 24 32 data))"
    using assms by (rule parse_long)
  {
    fix packet
    assume "build_ntp_response (be_int (bytes_slice 24 32 data)) receive_time transmit_time
      = Inr packet"
    then obtain rn tn where
      p: "packet = [36, 2, 1, 236, 0, 0, 0, 65, 0, 0, 0, 65, 76, 79, 67, 76] @
              be_bytes 8 tn @ be_bytes 8 (be_int B) @ be_bytes 8 rn @ be_bytes 8 tn"
      unfolding B_def by (rule build_ntp_response_Inr)
    have "be_bytes 8 (be_int B) = B" using be_bytes_be_int [of B] by (simp only: len)
    then have "bytes_slice 24 32 packet = B"
      by (simp add: p bytes_slice_def length_be_bytes len)
    then show "bytes_slice 24 32 packet = bytes_slice 24 32 data" by (simp only: B_def)
  }
  assume "0 \<le> ntp_us receive_time \<and> ntp_us receive_time < 2 ^ 32 * 1000000 \<and>
     0 \<le> ntp_us transmit_time \<and> ntp_us transmit_time < 2 ^ 32 * 1000000"
  moreover have "0 \<le> be_int B" "be_int B < 18446744073709551616"
    using be_int_nonneg [of B] be_int_less [of B] by (simp_all add: len)
  ultimately show "\<exists>packet. build_ntp_response (be_int (bytes_slice 24 32 data)) receive_time
      transmit_time = Inr packet"
    unfolding B_def by (intro build_ntp_response_era) simp_all
qed


theorem origin_echo_witness:
  "48 \<le> length (replicate 24 (0 :: byte) @ [1, 2, 3, 4, 5, 6, 7, 8] @ replicate 16 0) \<and>
   parse_ntp_request (replicate 24 (0 :: byte) @ [1, 2, 3, 4, 5, 6, 7, 8] @ replicate 16 0) =
     Some 0x0102030405060708 \<and>
   build_ntp_response 0x0102030405060708
       (civil 2024 1 15 10 30 0 0 utc) (civil 2024 1 15 10 30 0 0 utc) =
     Inr [36, 2, 1, 236, 0, 0, 0, 65, 0, 0, 0, 65, 76, 79, 67, 76,
          233, 79, 135, 168, 0, 0, 0, 0, 1, 2, 3, 4, 5, 6, 7, 8,
          233, 79, 135, 168, 0, 0, 0, 0, 233, 79, 135, 168, 0, 0, 0, 0] \<and>
   bytes_slice 24 32 [36, 2, 1, 236, 0, 0, 0, 65, 0, 0, 0, 65, 76, 79, 67, 76,
          233, 79, 135, 168, 0, 0, 0, 0, 1, 2, 3, 4, 5, 6, 7, 8,
          233, 79, 135, 168, 0, 0, 0, 0, 233, 79, 135, 168, 0, 0, 0, 0 :: byte] =
     [1, 2, 3, 4, 5, 6, 7, 8]"
proof -
  let ?d = "replicate 24 (0 :: byte) @ [1, 2, 3, 4, 5, 6, 7, 8] @ replicate 16 0"
  let ?t = "civil 2024 1 15 10 30 0 0 utc"
  let ?p = "[36, 2, 1, 236, 0, 0, 0, 65, 0, 0, 0, 65, 76, 79, 67, 76,
          233, 79, 135, 168, 0, 0, 0, 0, 1, 2, 3, 4, 5, 6, 7, 8,
          233, 79, 135, 168, 0, 0, 0, 0, 233, 79, 135, 168, 0, 0, 0, 0 :: byte]"
  have h: "48 \<le> length ?d" by simp
  have s: "bytes_slice 24 32 ?d = [1, 2, 3, 4, 5, 6, 7, 8]" by code_simp
  have v: "be_int [1, 2, 3, 4, 5, 6, 7, 8] = 0x0102030405060708" by code_simp
  have b: "build_ntp_response 0x0102030405060708 ?t ?t = Inr ?p" by code_simp
  note e = origin_echo [OF h, of ?t ?t, unfolded s v]
  from e have "parse_ntp_request ?d = Some 0x0102030405060708" by blast
  moreover from e b have "bytes_slice 24 32 ?p = [1, 2, 3, 4, 5, 6, 7, 8]" by blast
  ultimately show ?thesis using h b by (simp only: simp_thms)
qed


section \<open>Properties of the exchange loop\<close>

lemma rd_error_rel: "\<bar>rd x - x\<bar> \<le> \<bar>x\<bar> / 2 ^ 53"
proof (cases "x = 0")
  case True
  then show ?thesis by (simp add: rd_def)
next
  case False
  have "(2::rat) powi (ilog2 x - 53) = 2 powi ilog2 x / 2 powi 53"
    by (simp add: power_int_diff)
  also have "\<dots> \<le> \<bar>x\<bar> / 2 powi 53"
    using ilog2_bounds(1) [OF False] by (intro divide_right_mono) simp_all
  finally show ?thesis using rd_error [OF False] by simp
qed

lemma py_int_frac: "\<bar>x - of_int (py_int x)\<bar> < 1"
  unfolding py_int_def by (simp add: abs_if) linarith

lemma timedelta_seconds_error:
  assumes "timedelta_seconds e = Inr td"
  shows "\<bar>of_int (total_us td) - e * 1000000\<bar> \<le> 1 / 2 + 1 / 2 ^ 34"
proof -
  define w where "w = py_int e"
  define F where "F = e - of_int w"
  define p where "p = rd (F * 1000000)"
  from assms have "td = timedelta_of_us (w * 1000000 + round_half_even p)"
    by (simp add: timedelta_seconds_def Let_def float_mul_def w_def F_def p_def split: if_splits)
  then have us: "total_us td = w * 1000000 + round_half_even p" by (simp add: total_us_of_us)
  have F: "\<bar>F\<bar> < 1" unfolding F_def w_def by (rule py_int_frac)
  then have "\<bar>F * 1000000\<bar> < 2 powi 20" by (simp add: abs_mult)
  from rd_error_below [OF this] have e1: "\<bar>p - F * 1000000\<bar> \<le> 1 / 2 ^ 34"
    by (simp add: p_def power_int_minus)
  have e2: "\<bar>of_int (round_half_even p) - p\<bar> \<le> 1 / 2" by (rule round_half_even_error)
  have "of_int (total_us td) - e * 1000000 =
      (of_int (round_half_even p) - p) + (p - F * 1000000)"
    by (simp add: us F_def algebra_simps)
  also have "\<bar>\<dots>\<bar> \<le> \<bar>of_int (round_half_even p) - p\<bar> + \<bar>p - F * 1000000\<bar>"
    by (rule abs_triangle_ineq)
  also have "\<dots> \<le> 1 / 2 + 1 / 2 ^ 34" using e1 e2 by (rule add_mono [rotated])
  finally show ?thesis .
qed

lemma transmit_custom:
  assumes "use_custom_time st" "base_time st = Some base"
    and "transmit_time_of st rt r = Inr d"
  obtains td where "timedelta_seconds (float_sub r (server_start_time st)) = Inr td"
    and "wall d = wall base + total_us td" and "tzinfo d = tzinfo base"
  using assms
  by (auto simp: transmit_time_of_def Let_def datetime_add_def split: sum.splits if_splits)

text \<open>
  C5 (virtual clock lockstep). The claim states an exact equality between the
  difference of two transmit instants and the difference of the two clock samples. The
  code subtracts the start time from the sample in float arithmetic and \<open>timedelta\<close>
  rounds the result to whole microseconds. What holds with a custom base: the transmit
  instant is the base plus the elapsed float rounded to the nearest microsecond, so it
  is within \<open>1/2 + 2^-34\<close> microseconds of base plus elapsed; the elapsed float is the
  float nearest to sample minus start, with relative error at most \<open>2^-53\<close>; and for
  two samples the difference of the transmit instants is within \<open>1 + 2^-33\<close>
  microseconds of the difference of the elapsed floats.
\<close>

theorem virtual_clock_lockstep:
  assumes "use_custom_time st" and "base_time st = Some base"
    and "transmit_time_of st rt1 r1 = Inr d1" and "transmit_time_of st rt2 r2 = Inr d2"
  shows "\<bar>of_int (wall d1 - wall base) - float_sub r1 (server_start_time st) * 1000000\<bar>
       \<le> 1 / 2 + 1 / 2 ^ 34 \<and>
    \<bar>float_sub r1 (server_start_time st) - (r1 - server_start_time st)\<bar>
       \<le> \<bar>r1 - server_start_time st\<bar> / 2 ^ 53 \<and>
    \<bar>of_int (wall d2 - wall d1) -
       (float_sub r2 (server_start_time st) - float_sub r1 (server_start_time st)) * 1000000\<bar>
       \<le> 1 + 1 / 2 ^ 33"
proof -
  from assms(1,2,3) obtain td1 where
    t1: "timedelta_seconds (float_sub r1 (server_start_time st)) = Inr td1"
    and w1: "wall d1 = wall base + total_us td1"
    by (rule transmit_custom)
  from assms(1,2,4) obtain td2 where
    t2: "timedelta_seconds (float_sub r2 (server_start_time st)) = Inr td2"
    and w2: "wall d2 = wall base + total_us td2"
    by (rule transmit_custom)
  note e1 = timedelta_seconds_error [OF t1] and e2 = timedelta_seconds_error [OF t2]
  have a: "\<bar>of_int (wall d1 - wall base) - float_sub r1 (server_start_time st) * 1000000\<bar>
      \<le> 1 / 2 + 1 / 2 ^ 34"
    using e1 by (simp add: w1)
  have b: "\<bar>float_sub r1 (server_start_time st) - (r1 - server_start_time st)\<bar>
       \<le> \<bar>r1 - server_start_time st\<bar> / 2 ^ 53"
    unfolding float_sub_def by (rule rd_error_rel)
  have "of_int (wall d2 - wall d1) -
       (float_sub r2 (server_start_time st) - float_sub r1 (server_start_time st)) * 1000000
     = (of_int (total_us td2) - float_sub r2 (server_start_time st) * 1000000)
       - (of_int (total_us td1) - float_sub r1 (server_start_time st) * 1000000)"
    by (simp add: w1 w2 algebra_simps)
  also have "\<bar>\<dots>\<bar> \<le> \<bar>of_int (total_us td2) - float_sub r2 (server_start_time st) * 1000000\<bar>
       + \<bar>of_int (total_us td1) - float_sub r1 (server_start_time st) * 1000000\<bar>"
    by (rule abs_triangle_ineq4)
  also have "\<dots> \<le> (1 / 2 + 1 / 2 ^ 34) + (1 / 2 + 1 / 2 ^ 34)"
    using e2 e1 by (rule add_mono)
  also have "\<dots> = 1 + 1 / 2 ^ 33" by simp
  finally have c: "\<bar>of_int (wall d2 - wall d1) -
       (float_sub r2 (server_start_time st) - float_sub r1 (server_start_time st)) * 1000000\<bar>
      \<le> 1 + 1 / 2 ^ 33" .
  from a b c show ?thesis by (simp only: simp_thms)
qed


theorem virtual_clock_lockstep_witness:
  "\<bar>of_int (wall \<lparr>wall = 63840911405000002, tzinfo = Some 0\<rparr> - wall (civil 2024 1 15 10 30 0 0 utc))
      - float_sub (1700000005 + 1 / 524288) 1700000000 * 1000000\<bar> \<le> (1 / 2 + 1 / 2 ^ 34 :: rat) \<and>
   \<bar>of_int (wall \<lparr>wall = 63840911410000000, tzinfo = Some 0\<rparr>
               - wall \<lparr>wall = 63840911405000002, tzinfo = Some 0\<rparr>)
      - (float_sub 1700000010 1700000000 - float_sub (1700000005 + 1 / 524288) 1700000000) * 1000000\<bar>
     \<le> (1 + 1 / 2 ^ 33 :: rat)"
proof -
  let ?b = "civil 2024 1 15 10 30 0 0 utc"
  let ?st = "\<lparr>base_time = Some ?b, use_custom_time = True, server_start_time = 1700000000\<rparr>"
  let ?d1 = "\<lparr>wall = 63840911405000002, tzinfo = Some 0\<rparr>"
  let ?d2 = "\<lparr>wall = 63840911410000000, tzinfo = Some 0\<rparr>"
  have h1: "use_custom_time ?st" by simp
  have h2: "base_time ?st = Some ?b" by simp
  have h3: "transmit_time_of ?st ?b (1700000005 + 1 / 524288) = Inr ?d1" by code_simp
  have h4: "transmit_time_of ?st ?b 1700000010 = Inr ?d2" by code_simp
  from virtual_clock_lockstep [OF h1 h2 h3 h4] show ?thesis by simp
qed

text \<open>
  Two samples \<open>2^-21\<close> seconds apart, five seconds after the start: both give the
  base plus exactly five seconds, so the transmit instants do not differ although the
  samples do.
\<close>

theorem virtual_clock_lockstep_counterexample:
  "transmit_time_of
     \<lparr>base_time = Some (civil 2024 1 15 10 30 0 0 utc), use_custom_time = True,
      server_start_time = 1700000000\<rparr>
     (civil 2023 11 14 22 13 25 0 utc) 1700000005 =
     Inr (civil 2024 1 15 10 30 5 0 utc) \<and>
   transmit_time_of
     \<lparr>base_time = Some (civil 2024 1 15 10 30 0 0 utc), use_custom_time = True,
      server_start_time = 1700000000\<rparr>
     (civil 2023 11 14 22 13 25 0 utc) (1700000005 + 1 / 2097152) =
     Inr (civil 2024 1 15 10 30 5 0 utc) \<and>
   (1700000005 :: rat) < 1700000005 + 1 / 2097152"
  by code_simp

text \<open>
  C6 (orchestrator clock sampling). The claim says the transmit instant is computed
  from the captured receive instant. In custom-base mode the code reads the clock a
  second time (\<open>time.time()\<close>) and never uses the receive instant. What holds: in
  custom-base mode the transmit instant is the base plus
  \<open>timedelta(seconds = clock - server_start_time)\<close> for that second reading and is the
  same whatever the receive instant is; without a custom base it is the receive instant
  itself; and for an accepted datagram the response is built from the origin, the
  receive instant and that transmit instant.
\<close>

theorem transmit_sampling:
  "(use_custom_time st \<longrightarrow>
      transmit_time_of st receive_time clock =
        (case timedelta_seconds (float_sub clock (server_start_time st)) of
           Inl e \<Rightarrow> Inl e
         | Inr td \<Rightarrow> (case base_time st of
                        None \<Rightarrow> Inl TypeError
                      | Some base \<Rightarrow> datetime_add base td)) \<and>
      transmit_time_of st receive_time clock = transmit_time_of st receive_time' clock) \<and>
   (\<not> use_custom_time st \<longrightarrow> transmit_time_of st receive_time clock = Inr receive_time) \<and>
   (parse_ntp_request data = Some origin \<longrightarrow>
      serve_datagram st data receive_time clock =
        (case transmit_time_of st receive_time clock of
           Inl e \<Rightarrow> Inl e
         | Inr transmit_time \<Rightarrow>
             (case build_ntp_response origin receive_time transmit_time of
                Inl e \<Rightarrow> Inl e
              | Inr response \<Rightarrow> Inr (Some response))))"
  by (simp add: transmit_time_of_def serve_datagram_def Let_def)

text \<open>
  An accepted request received at Unix time 1700000005 exactly, with the second clock
  reading \<open>2^-19\<close> seconds later and the server started at 1700000000: the code
  transmits the base plus 5.000002 s, while base plus (receive instant minus start) is
  the base plus 5 s.
\<close>

theorem transmit_sampling_counterexample:
  "parse_ntp_request (replicate 48 0) = Some 0 \<and>
   transmit_time_of
     \<lparr>base_time = Some (civil 2024 1 15 10 30 0 0 utc), use_custom_time = True,
      server_start_time = 1700000000\<rparr>
     (civil 2023 11 14 22 13 25 0 utc) (1700000005 + 1 / 524288) =
     Inr (civil 2024 1 15 10 30 5 2 utc) \<and>
   spec_transmit_us (civil 2024 1 15 10 30 0 0 utc) 1700000000 (civil 2023 11 14 22 13 25 0 utc) =
     of_int (wall (civil 2024 1 15 10 30 5 0 utc))"
  by code_simp


theorem transmit_sampling_witness:
  "transmit_time_of
     \<lparr>base_time = Some (civil 2024 1 15 10 30 0 0 utc), use_custom_time = True,
      server_start_time = 1700000000\<rparr>
     (civil 2023 11 14 22 13 25 0 utc) (1700000005 + 1 / 524288) =
   transmit_time_of
     \<lparr>base_time = Some (civil 2024 1 15 10 30 0 0 utc), use_custom_time = True,
      server_start_time = 1700000000\<rparr>
     (civil 2023 11 14 22 13 26 0 utc) (1700000005 + 1 / 524288) \<and>
   transmit_time_of
     \<lparr>base_time = Some (civil 2023 11 14 22 13 20 0 utc), use_custom_time = False,
      server_start_time = 1700000000\<rparr>
     (civil 2023 11 14 22 13 25 0 utc) (1700000005 + 1 / 524288) =
     Inr (civil 2023 11 14 22 13 25 0 utc) \<and>
   serve_datagram
     \<lparr>base_time = Some (civil 2024 1 15 10 30 0 0 utc), use_custom_time = True,
      server_start_time = 1700000000\<rparr>
     (replicate 48 0) (civil 2023 11 14 22 13 25 0 utc) (1700000005 + 1 / 524288) =
     Inr (Some [36, 2, 1, 236, 0, 0, 0, 65, 0, 0, 0, 65, 76, 79, 67, 76,
                233, 79, 135, 173, 0, 0, 33, 141, 0, 0, 0, 0, 0, 0, 0, 0,
                232, 254, 111, 133, 0, 0, 0, 0, 233, 79, 135, 173, 0, 0, 33, 141])"
proof -
  let ?b = "civil 2024 1 15 10 30 0 0 utc"
  let ?S = "\<lparr>base_time = Some ?b, use_custom_time = True, server_start_time = 1700000000\<rparr>"
  let ?S2 = "\<lparr>base_time = Some (civil 2023 11 14 22 13 20 0 utc), use_custom_time = False,
      server_start_time = 1700000000\<rparr>"
  let ?R = "civil 2023 11 14 22 13 25 0 utc"
  let ?R' = "civil 2023 11 14 22 13 26 0 utc"
  let ?C = "1700000005 + 1 / 524288 :: rat"
  let ?P = "[36, 2, 1, 236, 0, 0, 0, 65, 0, 0, 0, 65, 76, 79, 67, 76,
                233, 79, 135, 173, 0, 0, 33, 141, 0, 0, 0, 0, 0, 0, 0, 0,
                232, 254, 111, 133, 0, 0, 0, 0, 233, 79, 135, 173, 0, 0, 33, 141 :: byte]"
  have h1: "use_custom_time ?S" by simp
  have h2: "\<not> use_custom_time ?S2" by simp
  have h3: "parse_ntp_request (replicate 48 0) = Some 0" by code_simp
  have v: "(case transmit_time_of ?S ?R ?C of
           Inl e \<Rightarrow> Inl e
         | Inr transmit_time \<Rightarrow>
             (case build_ntp_response 0 ?R transmit_time of
                Inl e \<Rightarrow> Inl e
              | Inr response \<Rightarrow> Inr (Some response))) = Inr (Some ?P)" by code_simp
  from transmit_sampling [of ?S ?R ?C ?R'] h1
  have a: "transmit_time_of ?S ?R ?C = transmit_time_of ?S ?R' ?C" by blast
  from transmit_sampling [of ?S2 ?R ?C] h2
  have b: "transmit_time_of ?S2 ?R ?C = Inr ?R" by blast
  from transmit_sampling [of ?S ?R ?C ?R "replicate 48 0" 0] h3
  have "serve_datagram ?S (replicate 48 0) ?R ?C =
     (case transmit_time_of ?S ?R ?C of
           Inl e \<Rightarrow> Inl e
         | Inr transmit_time \<Rightarrow>
             (case build_ntp_response 0 ?R transmit_time of
                Inl e \<Rightarrow> Inl e
              | Inr response \<Rightarrow> Inr (Some response)))" by blast
  then have c: "serve_datagram ?S (replicate 48 0) ?R ?C = Inr (Some ?P)" by (simp only: v)
  from a b c show ?thesis by (simp only: simp_thms)
qed

section \<open>Properties of the custom time parser\<close>












end
